theory Spec2Isabelle
  imports Complex_Main
begin

section \<open>Go strings, runes and the library functions the program calls\<close>

text \<open>
  A Go \<open>string\<close> is a sequence of bytes, modelled as \<open>string\<close> (a \<open>char list\<close>);
  indexing \<open>q[i]\<close> reads a byte and panics out of range. A \<open>rune\<close> is a code point,
  modelled as \<open>nat\<close>. The conversion \<open>[]rune(q)\<close> decodes UTF-8 and yields U+FFFD for
  every byte that does not start a well-formed sequence; \<open>string(rs)\<close> encodes.
\<close>

type_synonym rune = nat

definition RuneError :: rune where
  "RuneError = 65533"

definition cont :: "nat \<Rightarrow> bool" where
  "cont b = (128 \<le> b \<and> b \<le> 191)"

text \<open>\<open>decodeRune b0 bs\<close>: the rune starting with byte \<open>b0\<close> (rest \<open>bs\<close>) and its width.\<close>

definition decodeRune :: "nat \<Rightarrow> nat list \<Rightarrow> rune \<times> nat" where
  "decodeRune b0 bs =
     (if b0 < 128 then (b0, 1)
      else if 194 \<le> b0 \<and> b0 \<le> 223 then
        (case bs of
           b1 # _ \<Rightarrow> if cont b1 then ((b0 - 192) * 64 + (b1 - 128), 2) else (RuneError, 1)
         | _ \<Rightarrow> (RuneError, 1))
      else if 224 \<le> b0 \<and> b0 \<le> 239 then
        (case bs of
           b1 # b2 # _ \<Rightarrow>
             if (if b0 = 224 then 160 \<le> b1 \<and> b1 \<le> 191
                 else if b0 = 237 then 128 \<le> b1 \<and> b1 \<le> 159
                 else cont b1) \<and> cont b2
             then ((b0 - 224) * 4096 + (b1 - 128) * 64 + (b2 - 128), 3)
             else (RuneError, 1)
         | _ \<Rightarrow> (RuneError, 1))
      else if 240 \<le> b0 \<and> b0 \<le> 244 then
        (case bs of
           b1 # b2 # b3 # _ \<Rightarrow>
             if (if b0 = 240 then 144 \<le> b1 \<and> b1 \<le> 191
                 else if b0 = 244 then 128 \<le> b1 \<and> b1 \<le> 143
                 else cont b1) \<and> cont b2 \<and> cont b3
             then ((b0 - 240) * 262144 + (b1 - 128) * 4096 + (b2 - 128) * 64 + (b3 - 128), 4)
             else (RuneError, 1)
         | _ \<Rightarrow> (RuneError, 1))
      else (RuneError, 1))"

fun decodeBytes :: "nat list \<Rightarrow> rune list" where
  "decodeBytes [] = []"
| "decodeBytes (b0 # bs) =
     (case decodeRune b0 bs of (r, n) \<Rightarrow> r # decodeBytes (drop (n - 1) bs))"

text \<open>\<open>[]rune(q)\<close>\<close>

definition runes :: "string \<Rightarrow> rune list" where
  "runes q = decodeBytes (map of_char q)"

definition encodeRune :: "rune \<Rightarrow> nat list" where
  "encodeRune r =
     (if r < 128 then [r]
      else if r < 2048 then [192 + r div 64, 128 + r mod 64]
      else if (55296 \<le> r \<and> r \<le> 57343) \<or> 1114111 < r then [239, 191, 189]
      else if r < 65536 then [224 + r div 4096, 128 + (r div 64) mod 64, 128 + r mod 64]
      else [240 + r div 262144, 128 + (r div 4096) mod 64, 128 + (r div 64) mod 64,
            128 + r mod 64])"

text \<open>\<open>string(s)\<close> for \<open>s []rune\<close>\<close>

definition string_of_runes :: "rune list \<Rightarrow> string" where
  "string_of_runes rs = map char_of (concat (map encodeRune rs))"

text \<open>
  The functions of Go's standard library that the program calls and whose bodies are not
  part of the repository are parameters of the model:
  \<^item> \<open>ParseFloat\<close>: \<open>strconv.ParseFloat(s, 64)\<close>, \<open>None\<close> when it returns an error;
  \<^item> \<open>FormatFloat\<close>: \<open>fmt.Sprintf("%v", f)\<close> for a \<open>float64\<close>;
  \<^item> \<open>IntToFloat\<close>: the conversion \<open>float64(t)\<close> of an integer;
  \<^item> \<open>FormatCompound\<close>: \<open>fmt.Sprintf("%v", v)\<close> for a map or a slice;
  \<^item> \<open>LetterTab\<close>, \<open>DigitTab\<close>, \<open>SpaceTab\<close>: the Unicode tables behind
    \<open>unicode.IsLetter\<close>, \<open>unicode.IsDigit\<close> and \<open>unicode.IsSpace\<close> above Latin-1.
\<close>

text \<open>
  A \<open>float64\<close> matters to the program only through its comparisons: a value is NaN, an
  infinity, or a finite number. \<open><=\<close> and \<open>>=\<close> are false as soon as an operand is NaN.
\<close>

datatype float64 = NaN | NegInf | Fin rat | PosInf

fun f_le :: "float64 \<Rightarrow> float64 \<Rightarrow> bool" where
  "f_le NaN _ = False"
| "f_le _ NaN = False"
| "f_le NegInf _ = True"
| "f_le _ PosInf = True"
| "f_le (Fin a) (Fin b) = (a \<le> b)"
| "f_le (Fin a) NegInf = False"
| "f_le PosInf (Fin b) = False"
| "f_le PosInf NegInf = False"

definition f_ge :: "float64 \<Rightarrow> float64 \<Rightarrow> bool" where
  "f_ge a b = f_le b a"

definition f_lt :: "float64 \<Rightarrow> float64 \<Rightarrow> bool" where
  "f_lt a b = (f_le a b \<and> \<not> f_le b a)"

definition f_gt :: "float64 \<Rightarrow> float64 \<Rightarrow> bool" where
  "f_gt a b = f_lt b a"

datatype jvalue =
    JNull
  | JBool bool
  | JNum float64
  | JInt int
  | JStr string
  | JObj "(string \<times> jvalue) list"
  | JArr "jvalue list"

type_synonym document = "(string \<times> jvalue) list"

record golib =
  ParseFloat :: "string \<Rightarrow> float64 option"
  FormatFloat :: "float64 \<Rightarrow> string"
  IntToFloat :: "int \<Rightarrow> float64"
  FormatCompound :: "jvalue \<Rightarrow> string"
  LetterTab :: "rune \<Rightarrow> bool"
  DigitTab :: "rune \<Rightarrow> bool"
  SpaceTab :: "rune \<Rightarrow> bool"

text \<open>The \<open>unicode\<close> predicates; up to U+00FF Go answers from fixed Latin-1 properties.\<close>

definition IsSpace :: "golib \<Rightarrow> rune \<Rightarrow> bool" where
  "IsSpace L r =
     (if r \<le> 255 then r = 9 \<or> r = 10 \<or> r = 11 \<or> r = 12 \<or> r = 13 \<or> r = 32 \<or> r = 133 \<or> r = 160
      else SpaceTab L r)"

definition IsDigit :: "golib \<Rightarrow> rune \<Rightarrow> bool" where
  "IsDigit L r = (if r \<le> 255 then 48 \<le> r \<and> r \<le> 57 else DigitTab L r)"

definition IsLetter :: "golib \<Rightarrow> rune \<Rightarrow> bool" where
  "IsLetter L r =
     (if r \<le> 255 then
        (65 \<le> r \<and> r \<le> 90) \<or> (97 \<le> r \<and> r \<le> 122) \<or> r = 170 \<or> r = 181 \<or> r = 186
        \<or> (192 \<le> r \<and> r \<le> 214) \<or> (216 \<le> r \<and> r \<le> 246) \<or> (248 \<le> r \<and> r \<le> 255)
      else LetterTab L r)"

section \<open>The query language: lexString and parseQuery\<close>

record queryComparison =
  key :: "string list"
  "value" :: string
  op :: string

record query =
  ands :: "queryComparison list"

datatype lex_error = ExpectedEndOfQuotedString | NoStringFound

datatype error =
    IndexOutOfRange
  | ExpectedValidKey lex_error string
  | ExpectedColon nat string
  | ExpectedValidValue lex_error string
  | CouldNotLookUp string string
  | ErrNotFound
  | UnmarshalError string

text \<open>\<open>strings.Split(s, sep)\<close> for a one-byte separator.\<close>

fun split_on :: "char \<Rightarrow> string \<Rightarrow> string list" where
  "split_on c [] = [[]]"
| "split_on c (x # xs) =
     (if x = c then [] # split_on c xs
      else (case split_on c xs of w # ws \<Rightarrow> (x # w) # ws | [] \<Rightarrow> [[x]]))"

definition atomRune :: "golib \<Rightarrow> rune \<Rightarrow> bool" where
  "atomRune L c = (IsLetter L c \<or> IsDigit L c \<or> c = 46)"

text \<open>
  \<open>lexString(input, index)\<close> returns the atom, the next index and the error, as the
  source does: the index is used by the caller also when the error is set.
\<close>

definition lexString :: "golib \<Rightarrow> rune list \<Rightarrow> nat \<Rightarrow> string \<times> nat \<times> lex_error option" where
  "lexString L input index =
     (if index \<ge> length input then ([], index, None)
      else if input ! index = 34 then
        (let s = takeWhile (\<lambda>c. c \<noteq> 34) (drop (index + 1) input);
             index' = index + 1 + length s
         in if \<not> index' < length input then ([], index', Some ExpectedEndOfQuotedString)
            else (string_of_runes s, index' + 1, None))
      else
        (let s = takeWhile (atomRune L) (drop index input);
             index' = index + length s
         in if length s = 0 then ([], index', Some NoStringFound)
            else (string_of_runes s, index', None)))"

text \<open>\<open>q[i]\<close> and \<open>q[i:]\<close> on the bytes of \<open>q\<close>; both panic out of range.\<close>

definition byte_at :: "string \<Rightarrow> nat \<Rightarrow> error + char" where
  "byte_at q i = (if i < length q then Inr (q ! i) else Inl IndexOutOfRange)"

definition slice_from :: "string \<Rightarrow> nat \<Rightarrow> error + string" where
  "slice_from q i = (if i \<le> length q then Inr (drop i q) else Inl IndexOutOfRange)"

text \<open>
  The loop \<open>for unicode.IsSpace(qRune[i]) { i++ }\<close>: it reads \<open>qRune[i]\<close> before every
  test, so it panics when the spaces run to the end of the input.
\<close>

definition eatWhitespace :: "golib \<Rightarrow> rune list \<Rightarrow> nat \<Rightarrow> error + nat" where
  "eatWhitespace L qRune i =
     (let i' = i + length (takeWhile (IsSpace L) (drop i qRune))
      in if i' < length qRune then Inr i' else Inl IndexOutOfRange)"

text \<open>\<open>string(b)\<close> for a byte \<open>b\<close>: the UTF-8 encoding of the code point \<open>b\<close>.\<close>

definition string_of_byte :: "char \<Rightarrow> string" where
  "string_of_byte b = string_of_runes [of_char b]"

text \<open>One pass through the body of the loop of \<open>parseQuery\<close>, from index \<open>i\<close>.\<close>

definition parseComparison ::
  "golib \<Rightarrow> string \<Rightarrow> rune list \<Rightarrow> nat \<Rightarrow> error + (queryComparison \<times> nat)" where
  "parseComparison L q qRune i0 =
     (case eatWhitespace L qRune i0 of
        Inl e \<Rightarrow> Inl e
      | Inr i \<Rightarrow>
         (case lexString L qRune i of
            (k, nextIndex, Some err) \<Rightarrow>
              (case slice_from q nextIndex of
                 Inl e \<Rightarrow> Inl e
               | Inr rest \<Rightarrow> Inl (ExpectedValidKey err rest))
          | (k, nextIndex, None) \<Rightarrow>
              (case byte_at q nextIndex of
                 Inl e \<Rightarrow> Inl e
               | Inr c \<Rightarrow>
                  if c \<noteq> CHR '':'' then
                    (case slice_from q nextIndex of
                       Inl e \<Rightarrow> Inl e
                     | Inr rest \<Rightarrow> Inl (ExpectedColon nextIndex rest))
                  else
                    (let i1 = nextIndex + 1 in
                     case byte_at q i1 of
                       Inl e \<Rightarrow> Inl e
                     | Inr c1 \<Rightarrow>
                        (case (if c1 = CHR ''>'' \<or> c1 = CHR ''<''
                               then (case byte_at q (i1 + 1) of
                                       Inl e \<Rightarrow> Inl e
                                     | Inr c2 \<Rightarrow> Inr (i1 + 1, string_of_byte c2))
                               else Inr (i1, ''='')) of
                           Inl e \<Rightarrow> Inl e
                         | Inr (i2, opr) \<Rightarrow>
                            (case lexString L qRune i2 of
                               (v, nextIndex2, Some err) \<Rightarrow>
                                 (case slice_from q nextIndex2 of
                                    Inl e \<Rightarrow> Inl e
                                  | Inr rest \<Rightarrow> Inl (ExpectedValidValue err rest))
                             | (v, nextIndex2, None) \<Rightarrow>
                                 Inr (\<lparr>key = split_on CHR ''.'' k, value = v, op = opr\<rparr>,
                                      nextIndex2)))))))"

text \<open>
  The loop \<open>for i < len(qRune)\<close>. Every pass that returns normally moves \<open>i\<close> forward,
  which is what makes the loop end.
\<close>

function parseLoop ::
  "golib \<Rightarrow> string \<Rightarrow> rune list \<Rightarrow> nat \<Rightarrow> queryComparison list \<Rightarrow> error + query" where
  "parseLoop L q qRune i parsed =
     (if i < length qRune then
        (case parseComparison L q qRune i of
           Inl e \<Rightarrow> Inl e
         | Inr (argument, i') \<Rightarrow> parseLoop L q qRune i' (parsed @ [argument]))
      else Inr \<lparr>ands = parsed\<rparr>)"
  by pat_completeness auto
termination
proof -
  have lex_ge: "i \<le> n" if "lexString L input i = (s, n, e)" for L input i s n e
    using that by (auto simp: lexString_def Let_def split: if_splits)
  have lex_gt: "i < n" if "i < length input" "lexString L input i = (s, n, None)"
    for L input i s n
    using that by (auto simp: lexString_def Let_def split: if_splits)
  have ws: "i \<le> j \<and> j < length qRune" if "eatWhitespace L qRune i = Inr j" for L qRune i j
    using that by (auto simp: eatWhitespace_def Let_def split: if_splits)
  have progress: "i < i'" if step: "parseComparison L q qRune i = Inr (a, i')"
    for L q qRune i a i'
  proof -
    from step obtain j where j: "eatWhitespace L qRune i = Inr j"
      by (auto simp: parseComparison_def split: sum.splits)
    then have ij: "i \<le> j" "j < length qRune" using ws by blast+
    from step j obtain k n where k: "lexString L qRune j = (k, n, None)"
      by (auto simp: parseComparison_def split: sum.splits prod.splits option.splits)
    then have jn: "j < n" using lex_gt ij by blast
    from step j k obtain i2 v where "lexString L qRune i2 = (v, i', None)" and i2: "n < i2"
      by (auto simp: parseComparison_def Let_def
          split: sum.splits prod.splits option.splits if_splits)
    then have "i2 \<le> i'" using lex_ge by blast
    with ij jn i2 show ?thesis by simp
  qed
  show ?thesis
    by (relation "measure (\<lambda>(L, q, qRune, i, parsed). length qRune - i)")
       (auto dest: progress)
qed

definition parseQuery :: "golib \<Rightarrow> string \<Rightarrow> error + query" where
  "parseQuery L q = (if q = [] then Inr \<lparr>ands = []\<rparr> else parseLoop L q (runes q) 0 [])"

section \<open>Documents: getPath, getPathValues and match\<close>

text \<open>
  \<open>getPath\<close>: \<open>docSegment\<close> starts as the document and is replaced at every step;
  \<open>None\<close> is the source's \<open>(nil, false)\<close>, \<open>Some v\<close> its \<open>(v, true)\<close>.
\<close>

fun getPathFrom :: "jvalue \<Rightarrow> string list \<Rightarrow> jvalue option" where
  "getPathFrom docSegment [] = Some docSegment"
| "getPathFrom docSegment (part # parts) =
     (case docSegment of
        JObj m \<Rightarrow>
          (case map_of m part of
             None \<Rightarrow> None
           | Some v \<Rightarrow> getPathFrom v parts)
      | _ \<Rightarrow> None)"

definition getPath :: "document \<Rightarrow> string list \<Rightarrow> jvalue option" where
  "getPath doc parts = getPathFrom (JObj doc) parts"

text \<open>Decimal digits of an integer, as \<open>%v\<close> prints a Go \<open>int\<close>.\<close>

fun digits :: "nat \<Rightarrow> string" where
  "digits n = (if n < 10 then [char_of (48 + n)] else digits (n div 10) @ [char_of (48 + n mod 10)])"

definition itoa :: "int \<Rightarrow> string" where
  "itoa i = (if i < 0 then CHR ''-'' # digits (nat (- i)) else digits (nat i))"

text \<open>\<open>fmt.Sprintf("%v", v)\<close>\<close>

definition textual :: "golib \<Rightarrow> jvalue \<Rightarrow> string" where
  "textual L v =
     (case v of
        JNull \<Rightarrow> ''<nil>''
      | JBool b \<Rightarrow> (if b then ''true'' else ''false'')
      | JNum f \<Rightarrow> FormatFloat L f
      | JInt i \<Rightarrow> itoa i
      | JStr s \<Rightarrow> s
      | JObj m \<Rightarrow> FormatCompound L v
      | JArr a \<Rightarrow> FormatCompound L v)"

text \<open>
  \<open>getPathValues\<close>: the entries of the map are visited in the order of the list (Go leaves
  the order of a map's iteration open; every order is some list).
\<close>

fun getPathValues :: "golib \<Rightarrow> document \<Rightarrow> string \<Rightarrow> string list" where
  "getPathValues L [] prefix = []"
| "getPathValues L ((k, val) # obj) prefix =
     (case val of
        JObj t \<Rightarrow> getPathValues L t k @ getPathValues L obj prefix
      | JArr a \<Rightarrow> getPathValues L obj prefix
      | _ \<Rightarrow>
          ((if prefix \<noteq> [] then prefix @ ''.'' @ k else k) @ ''='' @ textual L val)
          # getPathValues L obj prefix)"

text \<open>The coercion of the resolved value in \<open>match\<close> (the type switch).\<close>

definition toFloat :: "golib \<Rightarrow> jvalue \<Rightarrow> float64 option" where
  "toFloat L v =
     (case v of
        JNum t \<Rightarrow> Some t
      | JInt t \<Rightarrow> Some (IntToFloat L t)
      | JStr t \<Rightarrow> ParseFloat L t
      | _ \<Rightarrow> None)"

text \<open>One pass through the loop of \<open>match\<close>: \<open>False\<close> is \<open>return false\<close>, \<open>True\<close> goes on.\<close>

definition matchArgument :: "golib \<Rightarrow> document \<Rightarrow> queryComparison \<Rightarrow> bool" where
  "matchArgument L doc argument =
     (case getPath doc (key argument) of
        None \<Rightarrow> False
      | Some v \<Rightarrow>
          if op argument = ''='' then textual L v = value argument
          else
            (case ParseFloat L (value argument) of
               None \<Rightarrow> False
             | Some right \<Rightarrow>
                 (case toFloat L v of
                    None \<Rightarrow> False
                  | Some left \<Rightarrow>
                      if op argument = ''>'' then \<not> f_le left right
                      else \<not> f_ge left right)))"

fun matchLoop :: "golib \<Rightarrow> document \<Rightarrow> queryComparison list \<Rightarrow> bool" where
  "matchLoop L doc [] = True"
| "matchLoop L doc (argument # rest) =
     (if matchArgument L doc argument then matchLoop L doc rest else False)"

definition match :: "golib \<Rightarrow> query \<Rightarrow> document \<Rightarrow> bool" where
  "match L q doc = matchLoop L doc (ands q)"

section \<open>The stores: index, lookup and searchDocuments\<close>

text \<open>
  The key-value engine is outside the repository. A store is a map from keys to bytes;
  \<open>Get\<close> answers with the bytes, with \<open>ErrNotFound\<close>, or with another error (then, as
  with \<open>ErrNotFound\<close>, the returned bytes are nil); \<open>Set\<close> may fail and then changes
  nothing. Whether a call fails is not decided by the program: it is an input of the model.
\<close>

type_synonym kv = "string \<Rightarrow> string option"

datatype get_result = Found string | NotFound | GetFailed string

definition dbGet :: "kv \<Rightarrow> bool \<Rightarrow> string \<Rightarrow> get_result" where
  "dbGet db fails k =
     (if fails then GetFailed ''read error''
      else (case db k of None \<Rightarrow> NotFound | Some v \<Rightarrow> Found v))"

definition dbSet :: "kv \<Rightarrow> bool \<Rightarrow> string \<Rightarrow> string \<Rightarrow> kv" where
  "dbSet db fails k v = (if fails then db else db(k \<mapsto> v))"

text \<open>
  The body of the loop of \<open>index\<close> for one \<open>pathValue\<close>; \<open>getFails\<close> and \<open>setFails\<close> say
  whether the two calls to the store fail. The failures are logged and nothing else.
\<close>

definition indexPathValue :: "bool \<times> bool \<Rightarrow> string \<Rightarrow> kv \<Rightarrow> string \<Rightarrow> kv" where
  "indexPathValue faults ident db pathValue =
     (let idsString0 = (case dbGet db (fst faults) pathValue of Found v \<Rightarrow> v | _ \<Rightarrow> []);
          idsString =
            (if length idsString0 = 0 then ident
             else (let ids = split_on CHR '','' idsString0;
                       found = (ident \<in> set ids)
                   in if \<not> found then idsString0 @ '','' @ ident else idsString0))
      in dbSet db (snd faults) pathValue idsString)"

fun indexLoop :: "(nat \<Rightarrow> bool \<times> bool) \<Rightarrow> nat \<Rightarrow> string \<Rightarrow> string list \<Rightarrow> kv \<Rightarrow> kv" where
  "indexLoop faults n ident [] db = db"
| "indexLoop faults n ident (pathValue # pv) db =
     indexLoop faults (Suc n) ident pv (indexPathValue (faults n) ident db pathValue)"

text \<open>\<open>index(id, document)\<close>; \<open>faults n\<close> are the failures of the \<open>n\<close>-th pass of the loop.\<close>

definition index :: "golib \<Rightarrow> (nat \<Rightarrow> bool \<times> bool) \<Rightarrow> string \<Rightarrow> document \<Rightarrow> kv \<Rightarrow> kv" where
  "index L faults ident doc db = indexLoop faults 0 ident (getPathValues L doc []) db"

text \<open>Running \<open>index\<close> \<open>n\<close> times; the \<open>r\<close>-th run has the failures \<open>faults r\<close>.\<close>

fun indexTimes ::
  "golib \<Rightarrow> (nat \<Rightarrow> nat \<Rightarrow> bool \<times> bool) \<Rightarrow> nat \<Rightarrow> string \<Rightarrow> document \<Rightarrow> kv \<Rightarrow> kv" where
  "indexTimes L faults 0 ident doc db = db"
| "indexTimes L faults (Suc n) ident doc db =
     index L (faults n) ident doc (indexTimes L faults n ident doc db)"

text \<open>
  Runs of \<open>index\<close> with one id, each with its own view of the document (the order in
  which the run meets the entries of the Go map) and its own failures.
\<close>

fun indexEach ::
  "golib \<Rightarrow> (document \<times> (nat \<Rightarrow> bool \<times> bool)) list \<Rightarrow> string \<Rightarrow> kv \<Rightarrow> kv" where
  "indexEach L [] ident db = db"
| "indexEach L ((doc, faults) # runs) ident db =
     indexEach L runs ident (index L faults ident doc db)"

text \<open>\<open>lookup(pathValue)\<close>, over the \<open>Get\<close> of the index store.\<close>

definition lookup :: "(string \<Rightarrow> get_result) \<Rightarrow> string \<Rightarrow> error + string list" where
  "lookup get pathValue =
     (case get pathValue of
        GetFailed e \<Rightarrow> Inl (CouldNotLookUp pathValue e)
      | NotFound \<Rightarrow> Inr []
      | Found idsString \<Rightarrow>
          if length idsString = 0 then Inr [] else Inr (split_on CHR '','' idsString))"

text \<open>The posting list of a fingerprint, as \<open>lookup\<close> reads it from a store without failure.\<close>

definition posting :: "kv \<Rightarrow> string \<Rightarrow> string list" where
  "posting db pathValue =
     (case lookup (dbGet db False) pathValue of Inl e \<Rightarrow> [] | Inr ids \<Rightarrow> ids)"

text \<open>
  The primary store: the ids in the order of the iterator, each with what
  \<open>json.Unmarshal\<close> makes of the stored bytes (a document, or an error).
\<close>

type_synonym primary = "(string \<times> (string + document)) list"

definition getDocumentById :: "primary \<Rightarrow> string \<Rightarrow> error + document" where
  "getDocumentById db ident =
     (case map_of db ident of
        None \<Rightarrow> Inl ErrNotFound
      | Some (Inl e) \<Rightarrow> Inl (UnmarshalError e)
      | Some (Inr document) \<Rightarrow> Inr document)"

text \<open>\<open>strings.Join(key, ".")\<close> and the fingerprint of an equality predicate.\<close>

fun join_dot :: "string list \<Rightarrow> string" where
  "join_dot [] = []"
| "join_dot [k] = k"
| "join_dot (k # ks) = k @ ''.'' @ join_dot ks"

definition fingerprint :: "queryComparison \<Rightarrow> string" where
  "fingerprint argument = join_dot (key argument) @ ''='' @ value argument"

text \<open>
  \<open>idsArgumentCount\<close> is a Go map; here its entries are kept in the order in which the
  ids were first seen. \<open>countId\<close> is \<open>idsArgumentCount[id]++\<close> (after the entry is set
  to 0 when it is missing).
\<close>

fun countId :: "(string \<times> nat) list \<Rightarrow> string \<Rightarrow> (string \<times> nat) list" where
  "countId [] ident = [(ident, 1)]"
| "countId ((k, c) # rest) ident =
     (if k = ident then (k, c + 1) # rest else (k, c) # countId rest ident)"

record tally =
  isRange :: bool
  idsArgumentCount :: "(string \<times> nat) list"
  nonRangeArguments :: nat

text \<open>The first loop of \<open>searchDocuments\<close>, over \<open>q.ands\<close>.\<close>

fun tallyLoop ::
  "(string \<Rightarrow> get_result) \<Rightarrow> queryComparison list \<Rightarrow> tally \<Rightarrow> error + tally" where
  "tallyLoop get [] t = Inr t"
| "tallyLoop get (argument # rest) t =
     (if op argument = ''='' then
        (case lookup get (fingerprint argument) of
           Inl e \<Rightarrow> Inl e
         | Inr ids \<Rightarrow>
             tallyLoop get rest
               (t\<lparr>nonRangeArguments := nonRangeArguments t + 1,
                  idsArgumentCount := foldl countId (idsArgumentCount t) ids\<rparr>))
      else tallyLoop get rest (t\<lparr>isRange := True\<rparr>))"

definition idsInAll :: "tally \<Rightarrow> string list" where
  "idsInAll t = map fst (filter (\<lambda>(ident, count). count = nonRangeArguments t) (idsArgumentCount t))"

text \<open>
  Where the candidates come from: \<open>idsInAll\<close> is dropped when \<open>skipIndex\<close> is \<open>"true"\<close>,
  and the branch \<open>len(idsInAll) > 0\<close> decides.
\<close>

datatype candidates = FromIndex "string list" | FullScan

definition chooseCandidates :: "string \<Rightarrow> string list \<Rightarrow> candidates" where
  "chooseCandidates skipIndex ids0 =
     (let ids = (if skipIndex = ''true'' then [] else ids0)
      in if length ids > 0 then FromIndex ids else FullScan)"

fun loadCandidates ::
  "golib \<Rightarrow> primary \<Rightarrow> query \<Rightarrow> bool \<Rightarrow> string list \<Rightarrow> (string \<times> document) list
     \<Rightarrow> error + (string \<times> document) list" where
  "loadCandidates L db q isRg [] documents = Inr documents"
| "loadCandidates L db q isRg (ident # ids) documents =
     (case getDocumentById db ident of
        Inl e \<Rightarrow> Inl e
      | Inr document \<Rightarrow>
          if \<not> isRg \<or> match L q document
          then loadCandidates L db q isRg ids (documents @ [(ident, document)])
          else loadCandidates L db q isRg ids documents)"

fun scanAll ::
  "golib \<Rightarrow> query \<Rightarrow> primary \<Rightarrow> (string \<times> document) list
     \<Rightarrow> error + (string \<times> document) list" where
  "scanAll L q [] documents = Inr documents"
| "scanAll L q ((ident, stored) # rest) documents =
     (case stored of
        Inl e \<Rightarrow> Inl (UnmarshalError e)
      | Inr document \<Rightarrow>
          if match L q document
          then scanAll L q rest (documents @ [(ident, document)])
          else scanAll L q rest documents)"

text \<open>The variables of the first loop before it starts.\<close>

definition startTally :: tally where
  "startTally = \<lparr>isRange = False, idsArgumentCount = [], nonRangeArguments = 0\<rparr>"

text \<open>\<open>searchDocuments\<close> after the query is parsed; the result is the list \<open>documents\<close>.\<close>

definition searchQuery ::
  "golib \<Rightarrow> (string \<Rightarrow> get_result) \<Rightarrow> primary \<Rightarrow> query \<Rightarrow> string
     \<Rightarrow> error + (string \<times> document) list" where
  "searchQuery L get db q skipIndex =
     (case tallyLoop get (ands q) startTally of
        Inl e \<Rightarrow> Inl e
      | Inr t \<Rightarrow>
          (case chooseCandidates skipIndex (idsInAll t) of
             FromIndex ids \<Rightarrow> loadCandidates L db q (isRange t) ids []
           | FullScan \<Rightarrow> scanAll L q db []))"

definition searchDocuments ::
  "golib \<Rightarrow> (string \<Rightarrow> get_result) \<Rightarrow> primary \<Rightarrow> string \<Rightarrow> string
     \<Rightarrow> error + (string \<times> document) list" where
  "searchDocuments L get db qparam skipIndex =
     (case parseQuery L qparam of
        Inl e \<Rightarrow> Inl e
      | Inr q \<Rightarrow> searchQuery L get db q skipIndex)"

section \<open>Specification-side notions and a library instance\<close>

text \<open>
  The value at a path, said without the loop: the empty path stops at the value itself, and
  a step goes through a document that has the key.
\<close>

inductive at_path :: "jvalue \<Rightarrow> string list \<Rightarrow> jvalue \<Rightarrow> bool" where
  here: "at_path v [] v"
| down: "map_of m part = Some v \<Longrightarrow> at_path v parts w \<Longrightarrow> at_path (JObj m) (part # parts) w"

code_pred at_path .

text \<open>A step of a path cannot be taken from \<open>v\<close>: \<open>v\<close> is no document, or lacks the key.\<close>

definition blocked :: "jvalue \<Rightarrow> string \<Rightarrow> bool" where
  "blocked v part = (case v of JObj m \<Rightarrow> map_of m part = None | _ \<Rightarrow> True)"

text \<open>
  One instance of the library parameters, for evaluating the model on concrete inputs. On
  the strings and numbers it lists it answers as Go does: \<open>strconv.ParseFloat\<close> maps
  \<open>"NaN"\<close> to NaN and \<open>"1"\<close>, \<open>"2"\<close>, \<open>"3"\<close> to these numbers; \<open>%v\<close> prints the
  floats 1 and 2 as \<open>1\<close> and \<open>2\<close>.
\<close>

definition sampleLib :: golib where
  "sampleLib =
     \<lparr>ParseFloat = (\<lambda>s. if s = ''NaN'' then Some NaN
                         else if s = ''1'' then Some (Fin 1)
                         else if s = ''2'' then Some (Fin 2)
                         else if s = ''3'' then Some (Fin 3)
                         else None),
      FormatFloat = (\<lambda>f. case f of
                              Fin x \<Rightarrow> (if x = 1 then ''1'' else if x = 2 then ''2'' else ''?'')
                            | _ \<Rightarrow> ''?''),
      IntToFloat = (\<lambda>i. Fin (of_int i)),
      FormatCompound = (\<lambda>v. ''?''),
      LetterTab = (\<lambda>r. False),
      DigitTab = (\<lambda>r. False),
      SpaceTab = (\<lambda>r. False)\<rparr>"


definition idsOf :: "(string \<Rightarrow> get_result) \<Rightarrow> queryComparison \<Rightarrow> string list" where
  "idsOf get a = (case lookup get (fingerprint a) of Inl e \<Rightarrow> [] | Inr ids \<Rightarrow> ids)"






definition stored :: "primary \<Rightarrow> (string \<times> document) list" where
  "stored db = concat (map (\<lambda>(i, s). case s of Inl e \<Rightarrow> [] | Inr d \<Rightarrow> [(i, d)]) db)"


text \<open>The id occurs at most once in every posting list of the index store.\<close>

definition atMostOnce :: "string \<Rightarrow> kv \<Rightarrow> bool" where
  "atMostOnce ident db = (\<forall>pathValue. count_list (posting db pathValue) ident \<le> 1)"

text \<open>Concrete stores and queries for evaluating the model.\<close>

definition noFaults :: "nat \<Rightarrow> nat \<Rightarrow> bool \<times> bool" where
  "noFaults r n = (False, False)"

definition emptyIndex :: "string \<Rightarrow> get_result" where
  "emptyIndex = dbGet Map.empty False"

definition failingIndex :: "string \<Rightarrow> get_result" where
  "failingIndex = dbGet Map.empty True"


definition samplePrimary :: primary where
  "samplePrimary =
     [(''id1'', Inr [(''a'', JInt 1)]), (''id2'', Inr [(''a'', JInt 5), (''b'', JInt 2)])]"




definition sampleDocument :: document where
  "sampleDocument = [(''a'', JObj [(''b'', JInt 1)]), (''c'', JStr ''x'')]"

definition qa1b2 :: query where
  "qa1b2 = \<lparr>ands = [\<lparr>key = [''a''], value = ''1'', op = ''=''\<rparr>,
                    \<lparr>key = [''b''], value = ''2'', op = ''=''\<rparr>]\<rparr>"

definition qa1 :: query where
  "qa1 = \<lparr>ands = [\<lparr>key = [''a''], value = ''1'', op = ''=''\<rparr>]\<rparr>"

section \<open>The parser\<close>

text \<open>
  Claim C1. When a key atom is followed by \<open>:\<close> and an explicit \<open>>\<close> or \<open><\<close>, the
  predicate's operator should be that consumed character, so that \<open>a.b:1 c:>2\<close> gives
  \<open>(["a","b"], "=", "1")\<close> and \<open>(["c"], ">", "2")\<close>, as \<open>Test_parseQuery\<close> expects.
  The source advances \<open>i\<close> first and then reads \<open>q[i]\<close>: the operator it stores is the
  byte after the consumed character, here \<open>"2"\<close>.
\<close>

theorem parseQuery_operator_is_following_byte:
  "parseQuery L ''a.b:1 c:>2'' =
     Inr \<lparr>ands = [\<lparr>key = [''a'', ''b''], value = ''1'', op = ''=''\<rparr>,
                  \<lparr>key = [''c''], value = ''2'', op = ''2''\<rparr>]\<rparr>"
  by code_simp

text \<open>
  Claim C5. Trailing whitespace after the last predicate should be allowed and change
  nothing. The whitespace loop of the source reads \<open>qRune[i]\<close> with no bound on \<open>i\<close>:
  on \<open>"a:1 "\<close> it runs off the end of the input and panics, while \<open>"a:1"\<close> parses.
\<close>

theorem parseQuery_trailing_whitespace_panics:
  "parseQuery L ''a:1 '' = Inl IndexOutOfRange \<and>
   parseQuery L ''a:1'' = Inr \<lparr>ands = [\<lparr>key = [''a''], value = ''1'', op = ''=''\<rparr>]\<rparr>"
  by code_simp

text \<open>
  Claim C6. When the position after the key atom holds no \<open>:\<close>, \<open>parseQuery\<close> should
  return the expected-colon error with the offset and the rest of the input, also when the
  input ends right after the key. The source reads \<open>q[nextIndex]\<close> without a bound: on
  \<open>"a"\<close> it panics. (Inside the input the error is returned: see
  \<open>parseQuery_expected_colon_inside\<close>.)
\<close>

theorem parseQuery_key_at_end_panics:
  "parseQuery L ''a'' = Inl IndexOutOfRange"
  by code_simp

lemma parseQuery_expected_colon_inside:
  "parseQuery L ''a b'' = Inl (ExpectedColon 1 '' b'')"
  by code_simp

lemma parseComparison_expected_colon:
  assumes "eatWhitespace L qRune i = Inr j"
    and "lexString L qRune j = (k, n, None)"
    and "n < length q"
    and "q ! n \<noteq> CHR '':''"
  shows "parseComparison L q qRune i = Inl (ExpectedColon n (drop n q))"
  using assms by (simp add: parseComparison_def byte_at_def slice_from_def)

text \<open>
  Inside the input the missing colon is reported: when the key atom of the first predicate
  ends at byte \<open>n\<close> of \<open>q\<close> and \<open>q[n]\<close> is no colon, \<open>parseQuery\<close> returns the
  expected-colon error with \<open>n\<close> and \<open>q[n:]\<close>.
\<close>

theorem parseQuery_expected_colon:
  assumes "eatWhitespace L (runes q) 0 = Inr j"
    and "lexString L (runes q) j = (k, n, None)"
    and "n < length q"
    and "q ! n \<noteq> CHR '':''"
  shows "parseQuery L q = Inl (ExpectedColon n (drop n q))"
proof -
  have "0 < length (runes q)" using assms(1)
    by (auto simp: eatWhitespace_def Let_def split: if_splits)
  moreover have "q \<noteq> []" using assms(3) by auto
  ultimately show ?thesis
    using parseComparison_expected_colon [OF assms]
    by (simp add: parseQuery_def)
qed

theorem parseQuery_expected_colon_witness:
  "eatWhitespace sampleLib (runes ''ab cd'') 0 = Inr 0
   \<and> lexString sampleLib (runes ''ab cd'') 0 = (''ab'', 2, None)
   \<and> parseQuery sampleLib ''ab cd'' = Inl (ExpectedColon 2 '' cd'')"
proof -
  have w: "eatWhitespace sampleLib (runes ''ab cd'') 0 = Inr 0" by code_simp
  have l: "lexString sampleLib (runes ''ab cd'') 0 = (''ab'', 2, None)" by code_simp
  have "parseQuery sampleLib ''ab cd'' = Inl (ExpectedColon 2 (drop 2 ''ab cd''))"
    by (rule parseQuery_expected_colon [OF w l]) simp_all
  with w l show ?thesis by simp
qed

section \<open>The path flattener\<close>


section \<open>getPath\<close>

lemma getPathFrom_at_path: "getPathFrom v parts = Some w \<longleftrightarrow> at_path v parts w"
proof (induction parts arbitrary: v)
  case Nil
  show ?case by (auto intro: at_path.intros elim: at_path.cases)
next
  case (Cons p ps)
  show ?case
  proof
    assume "getPathFrom v (p # ps) = Some w"
    then obtain m u where "v = JObj m" "map_of m p = Some u" "getPathFrom u ps = Some w"
      by (auto split: jvalue.splits option.splits)
    with Cons show "at_path v (p # ps) w" by (auto intro: at_path.intros)
  next
    assume "at_path v (p # ps) w"
    then obtain m u where "v = JObj m" "map_of m p = Some u" "at_path u ps w"
      by (auto elim: at_path.cases)
    with Cons show "getPathFrom v (p # ps) = Some w" by simp
  qed
qed

lemma getPathFrom_None:
  "getPathFrom v parts = None \<longleftrightarrow>
     (\<exists>n u. n < length parts \<and> getPathFrom v (take n parts) = Some u \<and> blocked u (parts ! n))"
proof (induction parts arbitrary: v)
  case Nil
  show ?case by simp
next
  case (Cons p ps)
  show ?case
  proof (cases "blocked v p")
    case True
    then have "getPathFrom v (p # ps) = None"
      by (auto simp: blocked_def split: jvalue.splits)
    moreover have "\<exists>n u. n < length (p # ps) \<and> getPathFrom v (take n (p # ps)) = Some u
        \<and> blocked u ((p # ps) ! n)"
      using True by (intro exI[of _ 0] exI[of _ v]) simp
    ultimately show ?thesis by simp
  next
    case False
    then obtain m u where v: "v = JObj m" "map_of m p = Some u"
      by (auto simp: blocked_def split: jvalue.splits)
    have "(\<exists>n w. n < length (p # ps) \<and> getPathFrom v (take n (p # ps)) = Some w
             \<and> blocked w ((p # ps) ! n))
       \<longleftrightarrow> (\<exists>n w. n < length ps \<and> getPathFrom u (take n ps) = Some w \<and> blocked w (ps ! n))"
      (is "?A \<longleftrightarrow> ?B")
    proof
      assume ?A
      then obtain n w where n: "n < length (p # ps)"
        "getPathFrom v (take n (p # ps)) = Some w" "blocked w ((p # ps) ! n)"
        by blast
      with False have "n \<noteq> 0" by (cases n) auto
      then obtain j where "n = Suc j" by (cases n) auto
      with n v show ?B by (intro exI[of _ j] exI[of _ w]) simp
    next
      assume ?B
      then obtain n w where "n < length ps" "getPathFrom u (take n ps) = Some w"
        "blocked w (ps ! n)"
        by blast
      with v show ?A by (intro exI[of _ "Suc n"] exI[of _ w]) simp
    qed
    with Cons[of u] v show ?thesis by simp
  qed
qed

text \<open>
  Claim C10. \<open>getPath\<close> with an empty path returns the whole document with \<open>ok = true\<close>;
  it returns \<open>(nil, false)\<close> exactly when some step of the path meets a value that is no
  document or a document without the key, and otherwise it returns the value at the path
  with \<open>ok = true\<close>.
\<close>

theorem getPath_characterisation:
  "getPath doc [] = Some (JObj doc) \<and>
   (getPath doc parts = None \<longleftrightarrow>
      (\<exists>n u. n < length parts \<and> getPath doc (take n parts) = Some u \<and> blocked u (parts ! n))) \<and>
   (getPath doc parts = Some w \<longleftrightarrow> at_path (JObj doc) parts w)"
  unfolding getPath_def using getPathFrom_None getPathFrom_at_path by simp

lemma getPath_examples:
  "getPath [(''a'', JObj [(''b'', JInt 1)])] [''a'', ''b''] = Some (JInt 1) \<and>
   getPath [(''a'', JObj [(''b'', JInt 1)])] [''a'', ''c''] = None"
  by (simp add: getPath_def)

section \<open>The match evaluator\<close>

lemma f_le_refl: "x \<noteq> NaN \<Longrightarrow> f_le x x"
  by (cases x) auto

lemma not_f_le_is_gt: "l \<noteq> NaN \<Longrightarrow> r \<noteq> NaN \<Longrightarrow> (\<not> f_le l r) = f_gt l r"
  by (cases l; cases r) (auto simp: f_gt_def f_lt_def)

lemma not_f_ge_is_lt: "l \<noteq> NaN \<Longrightarrow> r \<noteq> NaN \<Longrightarrow> (\<not> f_ge l r) = f_lt l r"
  by (cases l; cases r) (auto simp: f_ge_def f_lt_def)

lemma matchArgument_range:
  assumes "op a \<noteq> ''=''"
  shows "matchArgument L doc a =
     (\<exists>v l r. getPath doc (key a) = Some v \<and> ParseFloat L (value a) = Some r \<and>
        toFloat L v = Some l \<and> (if op a = ''>'' then \<not> f_le l r else \<not> f_ge l r))"
  using assms by (auto simp: matchArgument_def split: option.splits)

text \<open>
  Claim C4. For a predicate with op \<open><\<close> or \<open>>\<close>, \<open>match\<close> parses the predicate value
  as a float and fails the predicate when that fails, coerces the resolved value to a
  float, and then \<open>>\<close> should succeed iff left > right and \<open><\<close> iff left < right. The
  source tests the negations, \<open>left <= right\<close> and \<open>left >= right\<close>, to reject; both
  are false when an operand is NaN, and \<open>strconv.ParseFloat\<close> accepts \<open>"NaN"\<close>. So the
  predicate \<open>a > NaN\<close> succeeds on \<open>{"a": 1}\<close> although 1 > NaN does not hold.
\<close>

theorem match_greater_than_NaN_succeeds:
  assumes "ParseFloat L ''NaN'' = Some NaN"
  shows "match L \<lparr>ands = [\<lparr>key = [''a''], value = ''NaN'', op = ''>''\<rparr>]\<rparr> [(''a'', JNum (Fin 1))]
         \<and> \<not> f_gt (Fin 1) NaN"
  using assms
  by (simp add: match_def matchArgument_def getPath_def toFloat_def f_gt_def f_lt_def)

theorem match_greater_than_NaN_succeeds_witness:
  "ParseFloat sampleLib ''NaN'' = Some NaN \<and>
   match sampleLib \<lparr>ands = [\<lparr>key = [''a''], value = ''NaN'', op = ''>''\<rparr>]\<rparr>
     [(''a'', JNum (Fin 1))]"
proof -
  have h: "ParseFloat sampleLib ''NaN'' = Some NaN" by (simp add: sampleLib_def)
  from match_greater_than_NaN_succeeds [OF h] h show ?thesis by simp
qed

text \<open>
  The range predicates apart from NaN: a predicate value that does not parse, or a resolved
  value that is a boolean, null, a document, an array or an unparseable string, fails the
  predicate; for operands that are not NaN, \<open>>\<close> succeeds iff left > right, \<open><\<close> iff
  left < right, and equal operands fail both.
\<close>

theorem range_predicate_without_NaN:
  assumes "op a = ''>'' \<or> op a = ''<''"
  shows "(ParseFloat L (value a) = None \<longrightarrow> \<not> matchArgument L doc a)
       \<and> (\<forall>v. getPath doc (key a) = Some v \<and> toFloat L v = None \<longrightarrow> \<not> matchArgument L doc a)
       \<and> toFloat L (JBool b) = None \<and> toFloat L JNull = None
       \<and> toFloat L (JObj m) = None \<and> toFloat L (JArr xs) = None
       \<and> toFloat L (JNum f) = Some f \<and> toFloat L (JStr s) = ParseFloat L s
       \<and> (\<forall>v l r. getPath doc (key a) = Some v \<and> ParseFloat L (value a) = Some r
              \<and> toFloat L v = Some l \<and> l \<noteq> NaN \<and> r \<noteq> NaN \<longrightarrow>
            matchArgument L doc a = (if op a = ''>'' then f_gt l r else f_lt l r)
            \<and> (l = r \<longrightarrow> \<not> matchArgument L doc a))"
proof -
  have ne: "op a \<noteq> ''=''" using assms by auto
  have 1: "ParseFloat L (value a) = None \<longrightarrow> \<not> matchArgument L doc a"
    using ne by (auto simp: matchArgument_def split: option.splits)
  have 2: "\<forall>v. getPath doc (key a) = Some v \<and> toFloat L v = None \<longrightarrow> \<not> matchArgument L doc a"
    using ne by (auto simp: matchArgument_def split: option.splits)
  have 3: "toFloat L (JBool b) = None \<and> toFloat L JNull = None
       \<and> toFloat L (JObj m) = None \<and> toFloat L (JArr xs) = None
       \<and> toFloat L (JNum f) = Some f \<and> toFloat L (JStr s) = ParseFloat L s"
    by (simp add: toFloat_def)
  have 4: "matchArgument L doc a = (if op a = ''>'' then f_gt l r else f_lt l r)
            \<and> (l = r \<longrightarrow> \<not> matchArgument L doc a)"
    if h: "getPath doc (key a) = Some v \<and> ParseFloat L (value a) = Some r
              \<and> toFloat L v = Some l \<and> l \<noteq> NaN \<and> r \<noteq> NaN" for v l r
  proof -
    have m: "matchArgument L doc a = (if op a = ''>'' then \<not> f_le l r else \<not> f_ge l r)"
      using ne h by (simp add: matchArgument_def)
    have s: "matchArgument L doc a = (if op a = ''>'' then f_gt l r else f_lt l r)"
      using m h not_f_le_is_gt [of l r] not_f_ge_is_lt [of l r] by simp
    have "f_le l l" using h f_le_refl by blast
    then have e: "l = r \<longrightarrow> \<not> matchArgument L doc a"
      using m by (auto simp: f_ge_def)
    from s e show ?thesis by blast
  qed
  from 1 2 3 4 show ?thesis by blast
qed

theorem range_predicate_without_NaN_witness:
  "matchArgument sampleLib [(''age'', JStr ''1'')] \<lparr>key = [''age''], value = ''2'', op = ''<''\<rparr>
   \<and> \<not> matchArgument sampleLib [(''age'', JStr ''2'')] \<lparr>key = [''age''], value = ''2'', op = ''<''\<rparr>
   \<and> \<not> matchArgument sampleLib [(''age'', JStr ''2'')] \<lparr>key = [''age''], value = ''2'', op = ''>''\<rparr>
   \<and> \<not> matchArgument sampleLib [(''age'', JStr ''2'')] \<lparr>key = [''age''], value = ''x'', op = ''>''\<rparr>"
proof -
  let ?lt = "\<lparr>key = [''age''], value = ''2'', op = ''<''\<rparr>"
  let ?gt = "\<lparr>key = [''age''], value = ''2'', op = ''>''\<rparr>"
  let ?bad = "\<lparr>key = [''age''], value = ''x'', op = ''>''\<rparr>"
  have p2: "ParseFloat sampleLib ''2'' = Some (Fin 2)" and p1: "ParseFloat sampleLib ''1'' = Some (Fin 1)"
    and px: "ParseFloat sampleLib ''x'' = None"
    by (simp_all add: sampleLib_def)
  have a: "matchArgument sampleLib [(''age'', JStr ''1'')] ?lt = f_lt (Fin 1) (Fin 2)"
    using range_predicate_without_NaN [of ?lt sampleLib "[(''age'', JStr ''1'')]"] p1 p2
    by (simp add: getPath_def toFloat_def)
  have b: "\<not> matchArgument sampleLib [(''age'', JStr ''2'')] ?lt"
    using range_predicate_without_NaN [of ?lt sampleLib "[(''age'', JStr ''2'')]"] p2
    by (simp add: getPath_def toFloat_def f_lt_def)
  have c: "\<not> matchArgument sampleLib [(''age'', JStr ''2'')] ?gt"
    using range_predicate_without_NaN [of ?gt sampleLib "[(''age'', JStr ''2'')]"] p2
    by (simp add: getPath_def toFloat_def f_gt_def f_lt_def)
  have d: "\<not> matchArgument sampleLib [(''age'', JStr ''2'')] ?bad"
    using range_predicate_without_NaN [of ?bad sampleLib "[(''age'', JStr ''2'')]"] px
    by simp
  from a b c d show ?thesis by (simp add: f_lt_def)
qed

text \<open>
  Claim C8. In \<open>match\<close>, a predicate whose op is neither \<open>=\<close> nor \<open>>\<close> should be
  evaluated as a strict less-than comparison, so that \<open>c:>2\<close>, which \<open>parseQuery\<close> turns
  into a predicate with op \<open>"2"\<close>, is evaluated end to end as \<open>c < 2\<close>. The source
  rejects such a predicate only when \<open>left >= right\<close>, which is false when an operand is
  NaN (the slip of the greater-than branch as well): \<open>c:>2\<close> matches the document
  \<open>{"c": "NaN"}\<close>, and the search returns it, although NaN < 2 does not hold.
\<close>

theorem less_than_branch_accepts_NaN:
  assumes "ParseFloat L ''2'' = Some (Fin 2)" and "ParseFloat L ''NaN'' = Some NaN"
  shows "parseQuery L ''c:>2'' = Inr \<lparr>ands = [\<lparr>key = [''c''], value = ''2'', op = ''2''\<rparr>]\<rparr>
       \<and> match L \<lparr>ands = [\<lparr>key = [''c''], value = ''2'', op = ''2''\<rparr>]\<rparr> [(''c'', JStr ''NaN'')]
       \<and> \<not> f_lt NaN (Fin 2)
       \<and> searchDocuments L emptyIndex [(''id1'', Inr [(''c'', JStr ''NaN'')])] ''c:>2'' ''false'' =
           Inr [(''id1'', [(''c'', JStr ''NaN'')])]"
proof -
  let ?q = "\<lparr>ands = [\<lparr>key = [''c''], value = ''2'', op = ''2''\<rparr>]\<rparr>"
  have p: "parseQuery L ''c:>2'' = Inr ?q" by code_simp
  have m: "match L ?q [(''c'', JStr ''NaN'')]"
    using assms by (simp add: match_def matchArgument_def getPath_def toFloat_def f_ge_def)
  have n: "\<not> f_lt NaN (Fin 2)" by (simp add: f_lt_def)
  have s: "searchDocuments L emptyIndex [(''id1'', Inr [(''c'', JStr ''NaN'')])] ''c:>2'' ''false'' =
           Inr [(''id1'', [(''c'', JStr ''NaN'')])]"
    using m by (simp add: searchDocuments_def p searchQuery_def startTally_def idsInAll_def
        chooseCandidates_def)
  from p m n s show ?thesis by blast
qed

theorem less_than_branch_accepts_NaN_witness:
  "ParseFloat sampleLib ''2'' = Some (Fin 2) \<and> ParseFloat sampleLib ''NaN'' = Some NaN
   \<and> match sampleLib \<lparr>ands = [\<lparr>key = [''c''], value = ''2'', op = ''2''\<rparr>]\<rparr>
       [(''c'', JStr ''NaN'')]
   \<and> searchDocuments sampleLib emptyIndex [(''id1'', Inr [(''c'', JStr ''NaN'')])] ''c:>2''
       ''false'' = Inr [(''id1'', [(''c'', JStr ''NaN'')])]"
proof -
  have h2: "ParseFloat sampleLib ''2'' = Some (Fin 2)" by (simp add: sampleLib_def)
  have hn: "ParseFloat sampleLib ''NaN'' = Some NaN" by (simp add: sampleLib_def)
  from less_than_branch_accepts_NaN [OF h2 hn] h2 hn show ?thesis by blast
qed

text \<open>
  What holds of the branch: a predicate whose op is neither \<open>=\<close> nor \<open>>\<close> is evaluated
  exactly as one with op \<open><\<close> is, rejected when \<open>left >= right\<close>, which is the strict
  less-than for operands other than NaN; \<open>c:>2\<close> parses to op \<open>"2"\<close> and matches a
  document whose \<open>c\<close> is a finite number \<open>x\<close> iff \<open>x < 2\<close>.
\<close>

theorem other_op_is_less_than:
  "parseQuery L ''c:>2'' = Inr \<lparr>ands = [\<lparr>key = [''c''], value = ''2'', op = ''2''\<rparr>]\<rparr> \<and>
   (\<forall>a doc. op a \<noteq> ''='' \<and> op a \<noteq> ''>'' \<longrightarrow>
      matchArgument L doc a = matchArgument L doc (a\<lparr>op := ''<''\<rparr>) \<and>
      matchArgument L doc a =
        (\<exists>v l r. getPath doc (key a) = Some v \<and> ParseFloat L (value a) = Some r \<and>
           toFloat L v = Some l \<and> \<not> f_ge l r)) \<and>
   (\<forall>l r. l \<noteq> NaN \<and> r \<noteq> NaN \<longrightarrow> (\<not> f_ge l r) = f_lt l r) \<and>
   (\<forall>doc. match L \<lparr>ands = [\<lparr>key = [''c''], value = ''2'', op = ''2''\<rparr>]\<rparr> doc =
           match L \<lparr>ands = [\<lparr>key = [''c''], value = ''2'', op = ''<''\<rparr>]\<rparr> doc) \<and>
   (ParseFloat L ''2'' = Some (Fin 2) \<longrightarrow>
      (\<forall>x. match L \<lparr>ands = [\<lparr>key = [''c''], value = ''2'', op = ''2''\<rparr>]\<rparr>
              [(''c'', JNum (Fin x))]
            = (x < 2)))"
proof (intro conjI allI impI)
  show "parseQuery L ''c:>2'' = Inr \<lparr>ands = [\<lparr>key = [''c''], value = ''2'', op = ''2''\<rparr>]\<rparr>"
    by code_simp
next
  fix a :: queryComparison and doc
  assume "op a \<noteq> ''='' \<and> op a \<noteq> ''>''"
  then show "matchArgument L doc a = matchArgument L doc (a\<lparr>op := ''<''\<rparr>)"
    by (auto simp: matchArgument_def split: option.splits)
next
  fix a :: queryComparison and doc
  assume "op a \<noteq> ''='' \<and> op a \<noteq> ''>''"
  then show "matchArgument L doc a =
        (\<exists>v l r. getPath doc (key a) = Some v \<and> ParseFloat L (value a) = Some r \<and>
           toFloat L v = Some l \<and> \<not> f_ge l r)"
    using matchArgument_range [of a L doc] by simp
next
  fix l r
  assume "l \<noteq> NaN \<and> r \<noteq> NaN"
  then show "(\<not> f_ge l r) = f_lt l r"
    using not_f_ge_is_lt by blast
next
  fix doc
  show "match L \<lparr>ands = [\<lparr>key = [''c''], value = ''2'', op = ''2''\<rparr>]\<rparr> doc =
        match L \<lparr>ands = [\<lparr>key = [''c''], value = ''2'', op = ''<''\<rparr>]\<rparr> doc"
    by (simp add: match_def matchArgument_def split: option.splits)
next
  fix x
  assume "ParseFloat L ''2'' = Some (Fin 2)"
  then show "match L \<lparr>ands = [\<lparr>key = [''c''], value = ''2'', op = ''2''\<rparr>]\<rparr>
               [(''c'', JNum (Fin x))] = (x < 2)"
    by (auto simp: match_def matchArgument_def getPath_def toFloat_def f_ge_def)
qed

theorem other_op_is_less_than_witness:
  "parseQuery sampleLib ''c:>2'' =
     Inr \<lparr>ands = [\<lparr>key = [''c''], value = ''2'', op = ''2''\<rparr>]\<rparr> \<and>
   match sampleLib \<lparr>ands = [\<lparr>key = [''c''], value = ''2'', op = ''2''\<rparr>]\<rparr>
     [(''c'', JNum (Fin 1))] \<and>
   \<not> match sampleLib \<lparr>ands = [\<lparr>key = [''c''], value = ''2'', op = ''2''\<rparr>]\<rparr>
     [(''c'', JNum (Fin 3))] \<and>
   matchArgument sampleLib [(''c'', JNum (Fin 1))] \<lparr>key = [''c''], value = ''2'', op = ''2''\<rparr>
     = matchArgument sampleLib [(''c'', JNum (Fin 1))]
         \<lparr>key = [''c''], value = ''2'', op = ''<''\<rparr>"
proof -
  have h: "ParseFloat sampleLib ''2'' = Some (Fin 2)" by (simp add: sampleLib_def)
  have o: "op \<lparr>key = [''c''], value = ''2'', op = ''2''\<rparr> \<noteq> ''='' \<and>
           op \<lparr>key = [''c''], value = ''2'', op = ''2''\<rparr> \<noteq> ''>''" by simp
  note t = other_op_is_less_than [of sampleLib]
  from t have p: "parseQuery sampleLib ''c:>2'' =
      Inr \<lparr>ands = [\<lparr>key = [''c''], value = ''2'', op = ''2''\<rparr>]\<rparr>"
    by blast
  from t h have m: "\<And>x. match sampleLib \<lparr>ands = [\<lparr>key = [''c''], value = ''2'', op = ''2''\<rparr>]\<rparr>
      [(''c'', JNum (Fin x))] = (x < 2)"
    by blast
  from t o have e: "matchArgument sampleLib [(''c'', JNum (Fin 1))]
      \<lparr>key = [''c''], value = ''2'', op = ''2''\<rparr>
     = matchArgument sampleLib [(''c'', JNum (Fin 1))]
         (\<lparr>key = [''c''], value = ''2'', op = ''2''\<rparr>\<lparr>op := ''<''\<rparr>)"
    by blast
  from p m [of 1] m [of 3] e show ?thesis by simp
qed

text \<open>
  The loop of \<open>match\<close>: a query matches a document iff every predicate succeeds on it;
  the empty query matches every document.
\<close>

theorem match_is_conjunction:
  "match L q doc = (\<forall>a \<in> set (ands q). matchArgument L doc a)
   \<and> match L \<lparr>ands = []\<rparr> doc"
proof -
  have "matchLoop L doc args = (\<forall>a \<in> set args. matchArgument L doc a)" for args
    by (induction args) auto
  then show ?thesis by (simp add: match_def)
qed

theorem match_is_conjunction_witness:
  "match sampleLib qa1b2 [(''a'', JInt 1), (''b'', JInt 2)]
   \<and> \<not> match sampleLib qa1b2 [(''a'', JInt 1), (''b'', JInt 3)]
   \<and> \<not> match sampleLib qa1b2 [(''a'', JInt 5), (''b'', JInt 2)]"
proof -
  let ?a = "\<lparr>key = [''a''], value = ''1'', op = ''=''\<rparr>"
  let ?b = "\<lparr>key = [''b''], value = ''2'', op = ''=''\<rparr>"
  have a1: "matchArgument sampleLib [(''a'', JInt 1), (''b'', JInt 2)] ?a" by code_simp
  have b1: "matchArgument sampleLib [(''a'', JInt 1), (''b'', JInt 2)] ?b" by code_simp
  have b2: "\<not> matchArgument sampleLib [(''a'', JInt 1), (''b'', JInt 3)] ?b" by code_simp
  have a3: "\<not> matchArgument sampleLib [(''a'', JInt 5), (''b'', JInt 2)] ?a" by code_simp
  note th = match_is_conjunction [of sampleLib qa1b2]
  have x: "match sampleLib qa1b2 [(''a'', JInt 1), (''b'', JInt 2)]"
    using th [of "[(''a'', JInt 1), (''b'', JInt 2)]"] a1 b1 by (simp add: qa1b2_def)
  have y: "\<not> match sampleLib qa1b2 [(''a'', JInt 1), (''b'', JInt 3)]"
    using th [of "[(''a'', JInt 1), (''b'', JInt 3)]"] b2 by (simp add: qa1b2_def)
  have z: "\<not> match sampleLib qa1b2 [(''a'', JInt 5), (''b'', JInt 2)]"
    using th [of "[(''a'', JInt 5), (''b'', JInt 2)]"] a3 by (simp add: qa1b2_def)
  from x y z show ?thesis by blast
qed

section \<open>The index writer\<close>

lemma posting_alt:
  "posting db F = (case db F of None \<Rightarrow> [] | Some v \<Rightarrow> if v = [] then [] else split_on CHR '','' v)"
  by (simp add: posting_def lookup_def dbGet_def split: option.splits)

lemma split_on_nonempty: "split_on c s \<noteq> []"
  by (induction s) (auto split: list.splits)

lemma split_on_append: "split_on c (a @ c # b) = split_on c a @ split_on c b"
proof (induction a)
  case Nil
  show ?case by simp
next
  case (Cons x a)
  show ?case
  proof (cases "x = c")
    case True
    with Cons show ?thesis by simp
  next
    case False
    obtain w ws where w: "split_on c a = w # ws"
      using split_on_nonempty [of c a] by (cases "split_on c a") auto
    with False Cons show ?thesis by simp
  qed
qed

lemma split_on_no_sep: "w \<in> set (split_on c s) \<Longrightarrow> c \<notin> set w"
proof (induction s arbitrary: w)
  case Nil
  then show ?case by simp
next
  case (Cons x s)
  show ?case
  proof (cases "x = c")
    case True
    with Cons show ?thesis by auto
  next
    case False
    obtain v vs where v: "split_on c s = v # vs"
      using split_on_nonempty [of c s] by (cases "split_on c s") auto
    with False Cons.prems have "w = x # v \<or> w \<in> set vs" by simp
    then show ?thesis
    proof
      assume "w = x # v"
      moreover have "c \<notin> set v" using Cons.IH [of v] v by simp
      ultimately show ?thesis using False by auto
    next
      assume "w \<in> set vs"
      then show ?thesis using Cons.IH [of w] v by simp
    qed
  qed
qed

lemma split_on_without_sep: "c \<notin> set s \<Longrightarrow> split_on c s = [s]"
  by (induction s) auto

lemma count_split_self: "count_list (split_on c s) s \<le> 1"
proof (cases "c \<in> set s")
  case True
  then have "s \<notin> set (split_on c s)" using split_on_no_sep by blast
  then show ?thesis by (simp add: count_list_0_iff)
next
  case False
  then show ?thesis by (simp add: split_on_without_sep)
qed

lemma indexPathValue_atMostOnce:
  assumes "atMostOnce ident db"
  shows "atMostOnce ident (indexPathValue faults ident db pathValue)"
  unfolding atMostOnce_def
proof
  fix F
  let ?db' = "indexPathValue faults ident db pathValue"
  have old: "count_list (posting db F) ident \<le> 1" for F
    using assms by (simp add: atMostOnce_def)
  show "count_list (posting ?db' F) ident \<le> 1"
  proof (cases "snd faults \<or> F \<noteq> pathValue")
    case True
    then have "posting ?db' F = posting db F"
      by (auto simp: indexPathValue_def dbSet_def posting_alt Let_def)
    with old show ?thesis by simp
  next
    case False
    then have F: "F = pathValue" and ok: "\<not> snd faults" by auto
    define v0 where "v0 = (case dbGet db (fst faults) pathValue of Found v \<Rightarrow> v | _ \<Rightarrow> [])"
    show ?thesis
    proof (cases "v0 = []")
      case True
      then have "posting ?db' F = (if ident = [] then [] else split_on CHR '','' ident)"
        using F ok by (simp add: indexPathValue_def dbSet_def posting_alt v0_def Let_def)
      then show ?thesis using count_split_self [of "CHR '',''" ident] by simp
    next
      case False
      then have dbv: "db pathValue = Some v0"
        by (auto simp: v0_def dbGet_def split: if_splits option.splits)
      then have pold: "posting db pathValue = split_on CHR '','' v0"
        using False by (simp add: posting_alt)
      show ?thesis
      proof (cases "ident \<in> set (split_on CHR '','' v0)")
        case True
        then have "posting ?db' F = split_on CHR '','' v0"
          using F ok False
          unfolding indexPathValue_def dbSet_def posting_alt Let_def v0_def [symmetric]
          by simp
        with old [of pathValue] pold show ?thesis by simp
      next
        case nf: False
        then have "posting ?db' F = split_on CHR '','' (v0 @ CHR '','' # ident)"
          using F ok False
          unfolding indexPathValue_def dbSet_def posting_alt Let_def v0_def [symmetric]
          by simp
        then have "posting ?db' F = split_on CHR '','' v0 @ split_on CHR '','' ident"
          by (simp add: split_on_append)
        then show ?thesis
          using nf count_split_self [of "CHR '',''" ident] by (simp add: count_list_0_iff)
      qed
    qed
  qed
qed

lemma indexLoop_atMostOnce:
  "atMostOnce ident db \<Longrightarrow> atMostOnce ident (indexLoop faults n ident pv db)"
  by (induction pv arbitrary: n db) (auto intro: indexPathValue_atMostOnce)

lemma index_atMostOnce:
  "atMostOnce ident db \<Longrightarrow> atMostOnce ident (index L faults ident doc db)"
  by (simp add: index_def indexLoop_atMostOnce)

lemma atMostOnce_empty: "atMostOnce ident Map.empty"
  by (simp add: atMostOnce_def posting_alt)

lemma indexTimes_atMostOnce:
  "atMostOnce ident db \<Longrightarrow> atMostOnce ident (indexTimes L faults n ident doc db)"
  by (induction n) (auto intro: index_atMostOnce)

lemma indexEach_atMostOnce:
  "atMostOnce ident db \<Longrightarrow> atMostOnce ident (indexEach L runs ident db)"
  by (induction runs arbitrary: db) (auto simp: index_atMostOnce)

text \<open>
  Claim C7. Indexing is idempotent with respect to posting-list membership: after
  \<open>index(id, document)\<close> has run any number of times with the same id and the same
  document, every posting list of the index store contains that id at most once. A
  posting list is read as \<open>lookup\<close> reads it. The runs start from a store in which the id
  occurs at most once in every list, the empty store for one; a read or a write of the
  store may fail in any pass of any run, and the runs may meet the entries of the document
  in different orders (third part).
\<close>

theorem index_dedup:
  "(atMostOnce ident db \<longrightarrow>
      (\<forall>pathValue. count_list (posting (indexTimes L faults n ident doc db) pathValue) ident \<le> 1))
   \<and> (\<forall>pathValue.
        count_list (posting (indexTimes L faults n ident doc Map.empty) pathValue) ident \<le> 1)
   \<and> (atMostOnce ident db \<longrightarrow>
      (\<forall>pathValue. count_list (posting (indexEach L runs ident db) pathValue) ident \<le> 1))"
  using indexTimes_atMostOnce [of ident db L faults n doc]
    indexTimes_atMostOnce [OF atMostOnce_empty, of ident L faults n doc]
    indexEach_atMostOnce [of ident db L runs]
  by (simp add: atMostOnce_def)

theorem index_dedup_witness:
  "atMostOnce ''id1'' (Map.empty(''a.b=1'' \<mapsto> ''id0''))
   \<and> count_list
        (posting (indexTimes sampleLib noFaults 3 ''id1'' sampleDocument
                    (Map.empty(''a.b=1'' \<mapsto> ''id0''))) ''a.b=1'') ''id1'' \<le> 1
   \<and> posting (indexTimes sampleLib noFaults 3 ''id1'' sampleDocument
                 (Map.empty(''a.b=1'' \<mapsto> ''id0''))) ''a.b=1'' = [''id0'', ''id1'']
   \<and> posting (indexTimes sampleLib noFaults 3 ''id1'' sampleDocument
                 (Map.empty(''a.b=1'' \<mapsto> ''id0''))) ''c=x'' = [''id1'']"
proof -
  let ?db = "Map.empty(''a.b=1'' \<mapsto> ''id0'')"
  have h: "atMostOnce ''id1'' ?db"
    by (simp add: atMostOnce_def posting_alt)
  have c: "count_list (posting (indexTimes sampleLib noFaults 3 ''id1'' sampleDocument ?db)
             ''a.b=1'') ''id1'' \<le> 1"
    using index_dedup [of "''id1''" ?db sampleLib noFaults 3 sampleDocument] h by blast
  have e1: "posting (indexTimes sampleLib noFaults 3 ''id1'' sampleDocument ?db) ''a.b=1''
      = [''id0'', ''id1'']"
    by code_simp
  have e2: "posting (indexTimes sampleLib noFaults 3 ''id1'' sampleDocument ?db) ''c=x''
      = [''id1'']"
    by code_simp
  from h c e1 e2 show ?thesis by blast
qed

section \<open>The planner\<close>






lemma tallyLoop_result:
  assumes "tallyLoop get args t = Inr t'"
  shows "nonRangeArguments t' = nonRangeArguments t + length (filter (\<lambda>a. op a = ''='') args)
       \<and> isRange t' = (isRange t \<or> (\<exists>a \<in> set args. op a \<noteq> ''=''))
       \<and> idsArgumentCount t' =
           foldl countId (idsArgumentCount t)
             (concat (map (idsOf get) (filter (\<lambda>a. op a = ''='') args)))"
  using assms
proof (induction args arbitrary: t)
  case Nil
  then show ?case by simp
next
  case (Cons a args)
  show ?case
  proof (cases "op a = ''=''")
    case True
    with Cons.prems obtain ids where ids: "lookup get (fingerprint a) = Inr ids"
      by (auto split: sum.splits)
    let ?t = "t\<lparr>nonRangeArguments := nonRangeArguments t + 1,
                idsArgumentCount := foldl countId (idsArgumentCount t) ids\<rparr>"
    from Cons.prems True ids have "tallyLoop get args ?t = Inr t'" by simp
    from Cons.IH [OF this] True ids show ?thesis by (simp add: idsOf_def)
  next
    case False
    with Cons.prems have "tallyLoop get args (t\<lparr>isRange := True\<rparr>) = Inr t'" by simp
    from Cons.IH [OF this] False show ?thesis by auto
  qed
qed

lemma tallyLoop_fails:
  assumes "a \<in> set args" "op a = ''=''" "get (fingerprint a) = GetFailed e"
  shows "\<exists>pv e'. tallyLoop get args t = Inl (CouldNotLookUp pv e')"
  using assms
proof (induction args arbitrary: t)
  case Nil
  then show ?case by simp
next
  case (Cons b args)
  show ?case
  proof (cases "b = a")
    case True
    with Cons.prems show ?thesis by (simp add: lookup_def)
  next
    case False
    with Cons.prems have "a \<in> set args" by simp
    from Cons.IH [OF this Cons.prems(2,3)] show ?thesis
      by (auto simp: lookup_def split: sum.splits get_result.splits)
  qed
qed

lemma tallyLoop_ok:
  assumes "\<forall>a \<in> set args. op a = ''='' \<longrightarrow> (\<forall>e. get (fingerprint a) \<noteq> GetFailed e)"
  shows "\<exists>t'. tallyLoop get args t = Inr t'"
  using assms
proof (induction args arbitrary: t)
  case Nil
  then show ?case by simp
next
  case (Cons b args)
  then show ?case
    by (cases "get (fingerprint b)") (auto simp: lookup_def)
qed





















text \<open>
  Claim C9. Also with \<open>skipIndex=true\<close>, \<open>searchDocuments\<close> looks up the posting list of
  every equality predicate before it drops the ids: a failing lookup ends the search with
  an error, although without the failure the result is that of the full scan, which reads
  nothing from the index.
\<close>

theorem lookup_failure_aborts_scan:
  assumes "parseQuery L qparam = Inr q"
  shows "((\<exists>a e. a \<in> set (ands q) \<and> op a = ''='' \<and> get (fingerprint a) = GetFailed e) \<longrightarrow>
            (\<exists>pv e. searchDocuments L get db qparam skipIndex = Inl (CouldNotLookUp pv e)))
       \<and> ((\<forall>a \<in> set (ands q). op a = ''='' \<longrightarrow> (\<forall>e. get (fingerprint a) \<noteq> GetFailed e)) \<longrightarrow>
            searchDocuments L get db qparam ''true'' = scanAll L q db [])"
proof (intro conjI impI)
  assume "\<exists>a e. a \<in> set (ands q) \<and> op a = ''='' \<and> get (fingerprint a) = GetFailed e"
  then obtain a e where a: "a \<in> set (ands q)" "op a = ''=''" "get (fingerprint a) = GetFailed e"
    by blast
  obtain pv e' where "tallyLoop get (ands q) startTally = Inl (CouldNotLookUp pv e')"
    using tallyLoop_fails [of a "ands q" get e startTally] a by blast
  with assms show "\<exists>pv e. searchDocuments L get db qparam skipIndex = Inl (CouldNotLookUp pv e)"
    by (simp add: searchDocuments_def searchQuery_def)
next
  assume "\<forall>a \<in> set (ands q). op a = ''='' \<longrightarrow> (\<forall>e. get (fingerprint a) \<noteq> GetFailed e)"
  from tallyLoop_ok [OF this, of startTally]
  obtain t where "tallyLoop get (ands q) startTally = Inr t" by blast
  with assms show "searchDocuments L get db qparam ''true'' = scanAll L q db []"
    by (simp add: searchDocuments_def searchQuery_def chooseCandidates_def)
qed

theorem lookup_failure_aborts_scan_witness:
  "parseQuery sampleLib ''a:1'' = Inr qa1
   \<and> (\<exists>pv e. searchDocuments sampleLib failingIndex samplePrimary ''a:1'' ''true'' =
         Inl (CouldNotLookUp pv e))
   \<and> searchDocuments sampleLib emptyIndex samplePrimary ''a:1'' ''true'' =
       scanAll sampleLib qa1 samplePrimary []
   \<and> scanAll sampleLib qa1 samplePrimary [] = Inr [(''id1'', [(''a'', JInt 1)])]"
proof -
  have p: "parseQuery sampleLib ''a:1'' = Inr qa1" by code_simp
  let ?a = "\<lparr>key = [''a''], value = ''1'', op = ''=''\<rparr>"
  have bad: "\<exists>a e. a \<in> set (ands qa1) \<and> op a = ''='' \<and> failingIndex (fingerprint a) = GetFailed e"
    by (intro exI [of _ ?a] exI [of _ "''read error''"])
       (simp add: qa1_def failingIndex_def dbGet_def)
  have good: "\<forall>a \<in> set (ands qa1). op a = ''='' \<longrightarrow> (\<forall>e. emptyIndex (fingerprint a) \<noteq> GetFailed e)"
    by (simp add: qa1_def emptyIndex_def dbGet_def)
  have a: "\<exists>pv e. searchDocuments sampleLib failingIndex samplePrimary ''a:1'' ''true'' =
         Inl (CouldNotLookUp pv e)"
    using lookup_failure_aborts_scan [OF p, of failingIndex samplePrimary "''true''"] bad by blast
  have b: "searchDocuments sampleLib emptyIndex samplePrimary ''a:1'' ''true'' =
       scanAll sampleLib qa1 samplePrimary []"
    using lookup_failure_aborts_scan [OF p, of emptyIndex samplePrimary] good by blast
  have c: "scanAll sampleLib qa1 samplePrimary [] = Inr [(''id1'', [(''a'', JInt 1)])]"
    by code_simp
  from p a b c show ?thesis by blast
qed

end
